theory Spec2Isabelle
  imports Complex_Main "HOL-Library.Monad_Syntax"
begin

unbundle bit_operations_syntax

section \<open>Data model\<close>

text \<open>
  \<^verbatim>\<open>using Complex = std::complex<double>\<close>. The scalar type is left as a type
  parameter \<open>'a\<close>: the definitions below only use the operations the source applies to
  its doubles (\<open>0\<close>, \<open>1\<close>, \<open>+\<close>, \<open>-\<close>, \<open>*\<close>), so every structural theorem holds for
  whatever arithmetic interprets them. Addition and multiplication of complex values
  are the componentwise formulas of \<^verbatim>\<open>std::complex\<close>.
\<close>

datatype 'a Complex_t = Complex_t (real_c: 'a) (imag_c: 'a)

definition c_add :: "'a::plus Complex_t \<Rightarrow> 'a Complex_t \<Rightarrow> 'a Complex_t" where
  "c_add z w = Complex_t (real_c z + real_c w) (imag_c z + imag_c w)"

definition c_mul :: "'a::{plus,minus,times} Complex_t \<Rightarrow> 'a Complex_t \<Rightarrow> 'a Complex_t" where
  "c_mul z w = Complex_t (real_c z * real_c w - imag_c z * imag_c w)
                         (real_c z * imag_c w + imag_c z * real_c w)"

text \<open>\<^verbatim>\<open>std::norm\<close>: the squared magnitude.\<close>

definition std_norm :: "'a::{plus,times} Complex_t \<Rightarrow> 'a" where
  "std_norm z = real_c z * real_c z + imag_c z * imag_c z"

text \<open>
  \<^verbatim>\<open>using Gate = Eigen::Matrix2cd\<close>: a 2x2 matrix of complex values; field \<open>gRC\<close> is
  the coefficient \<^verbatim>\<open>gate(R, C)\<close>.
\<close>

record 'a Gate =
  g00 :: "'a Complex_t"
  g01 :: "'a Complex_t"
  g10 :: "'a Complex_t"
  g11 :: "'a Complex_t"

text \<open>
  \<^verbatim>\<open>class QuantumState\<close>: the amplitude vector \<^verbatim>\<open>amplitudes_\<close> and the qubit count
  \<^verbatim>\<open>num_qubits_\<close> (field names without the trailing underscore). Values of type
  \<^verbatim>\<open>size_t\<close> are natural numbers; all of them are below \<open>2 ^ 64\<close>.
\<close>

record 'a QuantumState =
  amplitudes :: "'a Complex_t list"
  num_qubits :: nat

text \<open>
  The shifts of the source on 64-bit unsigned values. A shift count of 64 or more is
  undefined behaviour in C++: the model returns \<open>None\<close> for it, and \<open>None\<close>
  propagates through every caller. For a count below 64 and operands below \<open>2 ^ 64\<close>
  the results of the source's \<^verbatim>\<open>1ULL << k\<close>, \<^verbatim>\<open>i >> k\<close> and \<^verbatim>\<open>i | m\<close> do not
  wrap around.
\<close>

definition shl_one :: "nat \<Rightarrow> nat option" where
  "shl_one k = (if k < 64 then Some (push_bit k 1) else None)"

definition shr :: "nat \<Rightarrow> nat \<Rightarrow> nat option" where
  "shr i k = (if k < 64 then Some (drop_bit k i) else None)"

section \<open>QuantumState\<close>

text \<open>
  Allocating a vector of \<open>sz\<close> amplitudes (\<^verbatim>\<open>StateVector::Zero(size)\<close>) needs
  \<open>16 * sz\<close> bytes, two doubles for each amplitude. The allocation throws
  \<^verbatim>\<open>std::bad_alloc\<close> when that byte count does not fit \<^verbatim>\<open>size_t\<close> or when the
  allocator cannot provide it. What the allocator can provide depends on the machine
  and on the moment of the call: it is the parameter \<open>mem\<close>, a number of bytes.
\<close>

definition fits_memory :: "nat \<Rightarrow> nat \<Rightarrow> bool" where
  "fits_memory mem sz \<longleftrightarrow> 16 * sz < 2 ^ 64 \<and> 16 * sz \<le> mem"

text \<open>
  The constructor: \<^verbatim>\<open>size = 1ULL << num_qubits\<close>, a zero vector of that size, and
  \<^verbatim>\<open>amplitudes_(0) = Complex(1.0, 0.0)\<close>. The result is \<open>None\<close> when no state is
  constructed: the shift is undefined, or the allocation throws. Only this allocation
  is modelled: the working copy that a gate application makes has the size of the
  vector that exists already, and is taken to succeed.
\<close>

definition new_QuantumState :: "nat \<Rightarrow> nat \<Rightarrow> ('a::{zero,one}) QuantumState option" where
  "new_QuantumState mem n =
     do {
       sz \<leftarrow> shl_one n;
       if fits_memory mem sz
       then Some \<lparr> amplitudes = (replicate sz (Complex_t 0 0))[0 := Complex_t 1 0],
                   num_qubits = n \<rparr>
       else None
     }"

text \<open>
  The two assignments to \<^verbatim>\<open>new_amplitudes(i)\<close> and \<^verbatim>\<open>new_amplitudes(j)\<close>, which
  both gate applications share: \<open>amp0\<close> and \<open>amp1\<close> are read from the vector
  \<open>amps\<close> (\<^verbatim>\<open>amplitudes_\<close>), the writes go to \<open>new\<close> (\<^verbatim>\<open>new_amplitudes\<close>).
\<close>

definition pair_update ::
  "('a::{plus,minus,times}) Gate \<Rightarrow> 'a Complex_t list \<Rightarrow> nat \<Rightarrow> nat \<Rightarrow> 'a Complex_t list
     \<Rightarrow> 'a Complex_t list" where
  "pair_update g amps i j new =
     (let amp0 = amps ! i;
          amp1 = amps ! j
      in (new[i := c_add (c_mul (g00 g) amp0) (c_mul (g01 g) amp1)])
              [j := c_add (c_mul (g10 g) amp0) (c_mul (g11 g) amp1)])"

text \<open>The body of the loop of \<^verbatim>\<open>apply_single_gate\<close> at index \<open>i\<close>.\<close>

definition single_gate_body ::
  "('a::{plus,minus,times}) Gate \<Rightarrow> nat \<Rightarrow> 'a Complex_t list \<Rightarrow> nat \<Rightarrow> nat
     \<Rightarrow> 'a Complex_t list \<Rightarrow> 'a Complex_t list option" where
  "single_gate_body g qubit amps sz i new =
     do {
       b \<leftarrow> shr i qubit;
       if b AND 1 = 0 then
         do {
           m \<leftarrow> shl_one qubit;
           let j = i OR m;
           if j < sz then Some (pair_update g amps i j new) else Some new
         }
       else Some new
     }"

text \<open>\<^verbatim>\<open>for (size_t i = 0; i < size; ++i)\<close>, started at \<open>i\<close>.\<close>

function single_gate_loop ::
  "('a::{plus,minus,times}) Gate \<Rightarrow> nat \<Rightarrow> 'a Complex_t list \<Rightarrow> nat \<Rightarrow> nat
     \<Rightarrow> 'a Complex_t list \<Rightarrow> 'a Complex_t list option" where
  "single_gate_loop g qubit amps sz i new =
     (if i < sz then
        (case single_gate_body g qubit amps sz i new of
           None \<Rightarrow> None
         | Some new' \<Rightarrow> single_gate_loop g qubit amps sz (i + 1) new')
      else Some new)"
  by pat_completeness auto
termination
  by (relation "measure (\<lambda>(g, qubit, amps, sz, i, new). sz - i)") auto

declare single_gate_loop.simps [simp del]

definition apply_single_gate ::
  "('a::{plus,minus,times}) Gate \<Rightarrow> nat \<Rightarrow> 'a QuantumState \<Rightarrow> 'a QuantumState option" where
  "apply_single_gate g qubit st =
     (let sz = length (amplitudes st);
          new_amplitudes = amplitudes st
      in do {
           new \<leftarrow> single_gate_loop g qubit (amplitudes st) sz 0 new_amplitudes;
           Some (st\<lparr>amplitudes := new\<rparr>)
         })"

text \<open>The body of the loop of \<^verbatim>\<open>apply_controlled_gate\<close> at index \<open>i\<close>.\<close>

definition controlled_gate_body ::
  "('a::{plus,minus,times}) Gate \<Rightarrow> nat \<Rightarrow> nat \<Rightarrow> 'a Complex_t list \<Rightarrow> nat \<Rightarrow> nat
     \<Rightarrow> 'a Complex_t list \<Rightarrow> 'a Complex_t list option" where
  "controlled_gate_body g control target amps sz i new =
     do {
       c \<leftarrow> shr i control;
       if c AND 1 = 1 then
         do {
           b \<leftarrow> shr i target;
           if b AND 1 = 0 then
             do {
               m \<leftarrow> shl_one target;
               let j = i OR m;
               if j < sz then Some (pair_update g amps i j new) else Some new
             }
           else Some new
         }
       else Some new
     }"

function controlled_gate_loop ::
  "('a::{plus,minus,times}) Gate \<Rightarrow> nat \<Rightarrow> nat \<Rightarrow> 'a Complex_t list \<Rightarrow> nat \<Rightarrow> nat
     \<Rightarrow> 'a Complex_t list \<Rightarrow> 'a Complex_t list option" where
  "controlled_gate_loop g control target amps sz i new =
     (if i < sz then
        (case controlled_gate_body g control target amps sz i new of
           None \<Rightarrow> None
         | Some new' \<Rightarrow> controlled_gate_loop g control target amps sz (i + 1) new')
      else Some new)"
  by pat_completeness auto
termination
  by (relation "measure (\<lambda>(g, control, target, amps, sz, i, new). sz - i)") auto

declare controlled_gate_loop.simps [simp del]

definition apply_controlled_gate ::
  "('a::{plus,minus,times}) Gate \<Rightarrow> nat \<Rightarrow> nat \<Rightarrow> 'a QuantumState
     \<Rightarrow> 'a QuantumState option" where
  "apply_controlled_gate g control target st =
     (let sz = length (amplitudes st);
          new_amplitudes = amplitudes st
      in do {
           new \<leftarrow> controlled_gate_loop g control target (amplitudes st) sz 0 new_amplitudes;
           Some (st\<lparr>amplitudes := new\<rparr>)
         })"

text \<open>
  \<^verbatim>\<open>get_probability\<close>: a \<^verbatim>\<open>const\<close> method, so it is a function of the state that
  returns the number only.
\<close>

definition get_probability :: "('a::{zero,plus,times}) QuantumState \<Rightarrow> nat \<Rightarrow> 'a" where
  "get_probability st state =
     (if state < length (amplitudes st) then std_norm (amplitudes st ! state) else 0)"

section \<open>Gates\<close>

text \<open>
  The comma initialiser fills the matrix row by row; an integer or a double entry is
  converted to the complex value with imaginary part \<open>0\<close>. The Pauli gates use only
  \<open>0\<close>, \<open>1\<close> and \<open>- 1\<close>; the Hadamard and rotation gates call \<^verbatim>\<open>std::sqrt\<close>,
  \<^verbatim>\<open>std::cos\<close>, \<^verbatim>\<open>std::sin\<close> and \<^verbatim>\<open>std::exp\<close> and are given over the reals.
\<close>

definition pauli_x :: "('a::{zero,one}) Gate" where
  "pauli_x = \<lparr> g00 = Complex_t 0 0, g01 = Complex_t 1 0,
               g10 = Complex_t 1 0, g11 = Complex_t 0 0 \<rparr>"

definition pauli_y :: "('a::{zero,one,uminus}) Gate" where
  "pauli_y = \<lparr> g00 = Complex_t 0 0, g01 = Complex_t 0 (- 1),
               g10 = Complex_t 0 1, g11 = Complex_t 0 0 \<rparr>"

definition pauli_z :: "('a::{zero,one,uminus}) Gate" where
  "pauli_z = \<lparr> g00 = Complex_t 1 0, g01 = Complex_t 0 0,
               g10 = Complex_t 0 0, g11 = Complex_t (- 1) 0 \<rparr>"

definition hadamard :: "real Gate" where
  "hadamard =
     (let inv_sqrt2 = 1 / sqrt 2
      in \<lparr> g00 = Complex_t inv_sqrt2 0, g01 = Complex_t inv_sqrt2 0,
            g10 = Complex_t inv_sqrt2 0, g11 = Complex_t (- inv_sqrt2) 0 \<rparr>)"

definition gates_rx :: "real \<Rightarrow> real Gate" where
  "gates_rx theta =
     (let cos_half = cos (theta / 2);
          sin_half = sin (theta / 2)
      in \<lparr> g00 = Complex_t cos_half 0, g01 = Complex_t 0 (- sin_half),
            g10 = Complex_t 0 (- sin_half), g11 = Complex_t cos_half 0 \<rparr>)"

definition gates_ry :: "real \<Rightarrow> real Gate" where
  "gates_ry theta =
     (let cos_half = cos (theta / 2);
          sin_half = sin (theta / 2)
      in \<lparr> g00 = Complex_t cos_half 0, g01 = Complex_t (- sin_half) 0,
            g10 = Complex_t sin_half 0, g11 = Complex_t cos_half 0 \<rparr>)"

text \<open>\<^verbatim>\<open>std::exp\<close> on a complex value: \<open>e\<^sup>x (cos y + i sin y)\<close>.\<close>

definition std_exp :: "real Complex_t \<Rightarrow> real Complex_t" where
  "std_exp z = Complex_t (exp (real_c z) * cos (imag_c z)) (exp (real_c z) * sin (imag_c z))"

definition gates_rz :: "real \<Rightarrow> real Gate" where
  "gates_rz theta =
     (let exp_neg = std_exp (Complex_t 0 (- theta / 2));
          exp_pos = std_exp (Complex_t 0 (theta / 2))
      in \<lparr> g00 = exp_neg, g01 = Complex_t 0 0,
            g10 = Complex_t 0 0, g11 = exp_pos \<rparr>)"

section \<open>QuantumCircuit\<close>

datatype OpType = SINGLE_GATE | CONTROLLED_GATE

text \<open>
  \<^verbatim>\<open>struct Operation\<close> with its fields \<^verbatim>\<open>type\<close>, \<^verbatim>\<open>gate\<close>, \<^verbatim>\<open>qubit\<close>,
  \<^verbatim>\<open>control\<close>, \<^verbatim>\<open>target\<close>, and \<^verbatim>\<open>class QuantumCircuit\<close> with \<^verbatim>\<open>num_qubits_\<close>
  and \<^verbatim>\<open>operations_\<close>.
\<close>

record 'a Operation =
  op_type :: OpType
  op_gate :: "'a Gate"
  op_qubit :: nat
  op_control :: nat
  op_target :: nat

record 'a QuantumCircuit =
  c_num_qubits :: nat
  operations :: "'a Operation list"

definition new_QuantumCircuit :: "nat \<Rightarrow> 'a QuantumCircuit" where
  "new_QuantumCircuit n = \<lparr> c_num_qubits = n, operations = [] \<rparr>"

text \<open>
  The builder methods \<^verbatim>\<open>h\<close>, \<^verbatim>\<open>x\<close>, \<^verbatim>\<open>y\<close>, \<^verbatim>\<open>z\<close>, \<^verbatim>\<open>rx\<close>, \<^verbatim>\<open>ry\<close>, \<^verbatim>\<open>rz\<close>
  and \<^verbatim>\<open>cnot\<close>: each is \<^verbatim>\<open>operations_.push_back({...}); return *this;\<close>, so each maps
  the circuit to the circuit with one more operation at the end.
\<close>

definition push_back :: "'a Operation \<Rightarrow> 'a QuantumCircuit \<Rightarrow> 'a QuantumCircuit" where
  "push_back op c = c\<lparr>operations := operations c @ [op]\<rparr>"

definition circuit_h :: "nat \<Rightarrow> real QuantumCircuit \<Rightarrow> real QuantumCircuit" where
  "circuit_h qubit c =
     push_back \<lparr> op_type = SINGLE_GATE, op_gate = hadamard, op_qubit = qubit,
                 op_control = 0, op_target = 0 \<rparr> c"

definition circuit_x :: "nat \<Rightarrow> ('a::{zero,one}) QuantumCircuit \<Rightarrow> 'a QuantumCircuit" where
  "circuit_x qubit c =
     push_back \<lparr> op_type = SINGLE_GATE, op_gate = pauli_x, op_qubit = qubit,
                 op_control = 0, op_target = 0 \<rparr> c"

definition circuit_y :: "nat \<Rightarrow> ('a::{zero,one,uminus}) QuantumCircuit \<Rightarrow> 'a QuantumCircuit" where
  "circuit_y qubit c =
     push_back \<lparr> op_type = SINGLE_GATE, op_gate = pauli_y, op_qubit = qubit,
                 op_control = 0, op_target = 0 \<rparr> c"

definition circuit_z :: "nat \<Rightarrow> ('a::{zero,one,uminus}) QuantumCircuit \<Rightarrow> 'a QuantumCircuit" where
  "circuit_z qubit c =
     push_back \<lparr> op_type = SINGLE_GATE, op_gate = pauli_z, op_qubit = qubit,
                 op_control = 0, op_target = 0 \<rparr> c"

definition circuit_rx :: "nat \<Rightarrow> real \<Rightarrow> real QuantumCircuit \<Rightarrow> real QuantumCircuit" where
  "circuit_rx qubit theta c =
     push_back \<lparr> op_type = SINGLE_GATE, op_gate = gates_rx theta, op_qubit = qubit,
                 op_control = 0, op_target = 0 \<rparr> c"

definition circuit_ry :: "nat \<Rightarrow> real \<Rightarrow> real QuantumCircuit \<Rightarrow> real QuantumCircuit" where
  "circuit_ry qubit theta c =
     push_back \<lparr> op_type = SINGLE_GATE, op_gate = gates_ry theta, op_qubit = qubit,
                 op_control = 0, op_target = 0 \<rparr> c"

definition circuit_rz :: "nat \<Rightarrow> real \<Rightarrow> real QuantumCircuit \<Rightarrow> real QuantumCircuit" where
  "circuit_rz qubit theta c =
     push_back \<lparr> op_type = SINGLE_GATE, op_gate = gates_rz theta, op_qubit = qubit,
                 op_control = 0, op_target = 0 \<rparr> c"

definition circuit_cnot ::
  "nat \<Rightarrow> nat \<Rightarrow> ('a::{zero,one}) QuantumCircuit \<Rightarrow> 'a QuantumCircuit" where
  "circuit_cnot control target c =
     push_back \<lparr> op_type = CONTROLLED_GATE, op_gate = pauli_x, op_qubit = 0,
                 op_control = control, op_target = target \<rparr> c"

text \<open>
  \<^verbatim>\<open>execute\<close>: the body of the range-for loop, the loop over \<^verbatim>\<open>operations_\<close> from
  the front, and the method. It is \<^verbatim>\<open>const\<close>: it reads the circuit and returns the
  state, so the model is a function of the circuit, and of the memory \<open>mem\<close> that the
  allocator can provide to the constructor at the time of the call.
\<close>

definition execute_step ::
  "('a::{plus,minus,times}) Operation \<Rightarrow> 'a QuantumState \<Rightarrow> 'a QuantumState option" where
  "execute_step op state =
     (if op_type op = SINGLE_GATE
      then apply_single_gate (op_gate op) (op_qubit op) state
      else apply_controlled_gate (op_gate op) (op_control op) (op_target op) state)"

fun execute_loop ::
  "('a::{plus,minus,times}) Operation list \<Rightarrow> 'a QuantumState \<Rightarrow> 'a QuantumState option" where
  "execute_loop [] state = Some state"
| "execute_loop (op # ops) state =
     (case execute_step op state of
        None \<Rightarrow> None
      | Some state' \<Rightarrow> execute_loop ops state')"

definition execute ::
  "nat \<Rightarrow> ('a::{zero,one,plus,minus,times}) QuantumCircuit \<Rightarrow> 'a QuantumState option" where
  "execute mem c =
     do {
       state \<leftarrow> new_QuantumState mem (c_num_qubits c);
       execute_loop (operations c) state
     }"

section \<open>Specification vocabulary\<close>

text \<open>
  A quantum state of \<open>n\<close> qubits: the amplitude vector has length \<open>2 ^ n\<close>, and that
  length is a \<^verbatim>\<open>size_t\<close>.
\<close>

definition valid_state :: "'a QuantumState \<Rightarrow> bool" where
  "valid_state st \<longleftrightarrow>
     num_qubits st < 64 \<and> length (amplitudes st) = 2 ^ num_qubits st"

text \<open>
  The two linear combinations of a pair \<open>(i, j)\<close>, read from the vector \<open>amps\<close>.
\<close>

definition upd0 ::
  "('a::{plus,minus,times}) Gate \<Rightarrow> 'a Complex_t list \<Rightarrow> nat \<Rightarrow> nat \<Rightarrow> 'a Complex_t" where
  "upd0 g amps i j = c_add (c_mul (g00 g) (amps ! i)) (c_mul (g01 g) (amps ! j))"

definition upd1 ::
  "('a::{plus,minus,times}) Gate \<Rightarrow> 'a Complex_t list \<Rightarrow> nat \<Rightarrow> nat \<Rightarrow> 'a Complex_t" where
  "upd1 g amps i j = c_add (c_mul (g10 g) (amps ! i)) (c_mul (g11 g) (amps ! j))"

text \<open>
  Loop invariants: the entry \<open>k\<close> of \<^verbatim>\<open>new_amplitudes\<close> once the indices below \<open>i\<close>
  have been processed, for the single-qubit and for the controlled loop.
\<close>

definition single_after ::
  "('a::{plus,minus,times}) Gate \<Rightarrow> nat \<Rightarrow> 'a Complex_t list \<Rightarrow> nat \<Rightarrow> nat \<Rightarrow> nat
     \<Rightarrow> 'a Complex_t" where
  "single_after g q amps sz i k =
     (if bit k q then
        (if k - 2 ^ q < i then upd1 g amps (k - 2 ^ q) k else amps ! k)
      else
        (if k < i \<and> k + 2 ^ q < sz then upd0 g amps k (k + 2 ^ q) else amps ! k))"

definition controlled_after ::
  "('a::{plus,minus,times}) Gate \<Rightarrow> nat \<Rightarrow> nat \<Rightarrow> 'a Complex_t list \<Rightarrow> nat \<Rightarrow> nat \<Rightarrow> nat
     \<Rightarrow> 'a Complex_t" where
  "controlled_after g c t amps sz i k =
     (if bit k t then
        (if bit (k - 2 ^ t) c \<and> k - 2 ^ t < i then upd1 g amps (k - 2 ^ t) k else amps ! k)
      else
        (if bit k c \<and> k < i \<and> k + 2 ^ t < sz then upd0 g amps k (k + 2 ^ t) else amps ! k))"

section \<open>Bits of natural numbers\<close>

lemma set_bit_add_pow: "\<not> bit (i::nat) k \<Longrightarrow> set_bit k i = i + 2 ^ k"
  by (simp add: set_bit_eq)

lemma or_push_bit_one: "\<not> bit (i::nat) k \<Longrightarrow> i OR push_bit k 1 = i + 2 ^ k"
  using set_bit_add_pow [of i k] by (simp add: set_bit_eq_or)

lemma bit_ge_pow: "bit (k::nat) q \<Longrightarrow> 2 ^ q \<le> k"
  by (rule ccontr) (simp add: bit_iff_odd not_le)

lemma bit_add_pow: "\<not> bit (i::nat) q \<Longrightarrow> bit (i + 2 ^ q) m = (m = q \<or> bit i m)"
  using set_bit_add_pow [of i q] bit_set_bit_iff [of q i m] by auto

lemma unset_bit_sub_pow:
  assumes "bit (k::nat) q"
  shows "unset_bit q k = k - 2 ^ q"
proof -
  have "\<not> bit (unset_bit q k) q"
    by (simp add: bit_unset_bit_iff)
  then have "set_bit q (unset_bit q k) = unset_bit q k + 2 ^ q"
    by (rule set_bit_add_pow)
  moreover have "set_bit q (unset_bit q k) = k"
    using assms by (intro bit_eqI) (auto simp: bit_set_bit_iff bit_unset_bit_iff)
  ultimately show ?thesis
    by simp
qed

lemma bit_sub_pow: "bit (k::nat) q \<Longrightarrow> bit (k - 2 ^ q) m = (m \<noteq> q \<and> bit k m)"
  using unset_bit_sub_pow [of k q] bit_unset_bit_iff [of q k m] by auto

lemma lt_pow_not_bit: "(k::nat) < 2 ^ q \<Longrightarrow> \<not> bit k q"
  using bit_ge_pow [of k q] by auto

lemma bit_lt_pow: "(i::nat) < 2 ^ n \<Longrightarrow> bit i m \<Longrightarrow> m < n"
proof -
  assume "i < 2 ^ n" "bit i m"
  then have "(2::nat) ^ m < 2 ^ n"
    using bit_ge_pow [of i m] by (meson le_less_trans)
  then show "m < n"
    by simp
qed

lemma add_pow_lt_pow:
  assumes "\<not> bit (i::nat) q" "i < 2 ^ n" "q < n"
  shows "i + 2 ^ q < 2 ^ n"
proof -
  have "take_bit n (set_bit q i) = set_bit q i"
    using assms by (intro bit_eqI) (auto simp: bit_take_bit_iff bit_set_bit_iff dest: bit_lt_pow)
  then show ?thesis
    using assms(1) by (simp add: take_bit_nat_eq_self_iff set_bit_add_pow)
qed

lemma drop_bit_mod2_zero: "(drop_bit k (i::nat) mod 2 = 0) = (\<not> bit i k)"
  by (simp add: bit_iff_odd_drop_bit even_iff_mod_2_eq_zero)

lemma drop_bit_mod2_one: "(drop_bit k (i::nat) mod 2 = Suc 0) = bit i k"
  by (simp add: bit_iff_odd_drop_bit odd_iff_mod_2_eq_one)

lemma or_pow: "\<not> bit (i::nat) k \<Longrightarrow> i OR 2 ^ k = i + 2 ^ k"
  using or_push_bit_one [of i k] by simp

lemma pair_update_eq:
  "pair_update g amps i j new = (new[i := upd0 g amps i j])[j := upd1 g amps i j]"
  by (simp add: pair_update_def upd0_def upd1_def Let_def)

lemma single_gate_body_eq:
  "qubit < 64 \<Longrightarrow>
   single_gate_body g qubit amps sz i new =
     Some (if \<not> bit i qubit \<and> i + 2 ^ qubit < sz
           then pair_update g amps i (i + 2 ^ qubit) new else new)"
  by (simp add: single_gate_body_def shr_def shl_one_def Let_def drop_bit_mod2_zero
      drop_bit_mod2_one or_pow)

lemma single_step:
  assumes len: "length new = sz"
    and i: "i < sz"
    and inv: "\<forall>k<sz. new ! k = single_after g q amps sz i k"
    and k: "k < sz"
  shows "(if \<not> bit i q \<and> i + 2 ^ q < sz then pair_update g amps i (i + 2 ^ q) new else new) ! k
           = single_after g q amps sz (i + 1) k"
proof (cases "\<not> bit i q \<and> i + 2 ^ q < sz")
  case True
  then have nb: "\<not> bit i q" and j: "i + 2 ^ q < sz" by simp_all
  have bj: "bit (i + 2 ^ q) q" using nb by (simp add: bit_add_pow)
  show ?thesis
  proof (cases "bit k q")
    case True
    then have "2 ^ q \<le> k" by (rule bit_ge_pow)
    then have "(k - 2 ^ q < i + 1) = (k - 2 ^ q < i \<or> k = i + 2 ^ q)" by auto
    moreover have "k \<noteq> i" using True nb by auto
    ultimately show ?thesis
      using True nb j len k inv \<open>2 ^ q \<le> k\<close>
      by (auto simp: pair_update_eq single_after_def nth_list_update)
  next
    case False
    then have "k \<noteq> i + 2 ^ q" using bj by auto
    then show ?thesis
      using False nb j len k inv i
      by (auto simp: pair_update_eq single_after_def nth_list_update less_Suc_eq)
  qed
next
  case False
  show ?thesis
  proof (cases "bit k q")
    case True
    then have "2 ^ q \<le> k" by (rule bit_ge_pow)
    have "k - 2 ^ q \<noteq> i"
    proof
      assume e: "k - 2 ^ q = i"
      then have "\<not> bit i q" using True bit_sub_pow [of k q q] by simp
      moreover have "i + 2 ^ q = k" using e \<open>2 ^ q \<le> k\<close> by simp
      ultimately show False using False k by simp
    qed
    then show ?thesis
      using True False inv k by (auto simp: single_after_def less_Suc_eq)
  next
    case nbk: False
    have "k = i \<Longrightarrow> \<not> k + 2 ^ q < sz" using False nbk by auto
    then show ?thesis
      using nbk False inv k by (auto simp: single_after_def less_Suc_eq)
  qed
qed


lemma length_pair_update: "length (pair_update g amps i j new) = length new"
  by (simp add: pair_update_eq)

lemma single_gate_loop_inv:
  "q < 64 \<Longrightarrow> length new = sz \<Longrightarrow>
   \<forall>k<sz. new ! k = single_after g q amps sz i k \<Longrightarrow>
   \<exists>r. single_gate_loop g q amps sz i new = Some r \<and> length r = sz \<and>
       (\<forall>k<sz. r ! k = single_after g q amps sz (max i sz) k)"
proof (induction g q amps sz i new rule: single_gate_loop.induct)
  case (1 g qubit amps sz i new)
  show ?case
  proof (cases "i < sz")
    case True
    define new' where
      "new' = (if \<not> bit i qubit \<and> i + 2 ^ qubit < sz
               then pair_update g amps i (i + 2 ^ qubit) new else new)"
    have body: "single_gate_body g qubit amps sz i new = Some new'"
      using "1.prems"(1) by (simp add: single_gate_body_eq new'_def)
    have len: "length new' = sz"
      using "1.prems"(2) by (simp add: new'_def length_pair_update)
    have inv: "\<forall>k<sz. new' ! k = single_after g qubit amps sz (i + 1) k"
      unfolding new'_def using single_step [OF "1.prems"(2) True "1.prems"(3)] by blast
    have "\<exists>r. single_gate_loop g qubit amps sz (i + 1) new' = Some r \<and> length r = sz \<and>
       (\<forall>k<sz. r ! k = single_after g qubit amps sz (max (i + 1) sz) k)"
      using "1.IH" [OF True body "1.prems"(1) len inv] .
    moreover have "max (i + 1) sz = max i sz"
      using True by simp
    moreover have "single_gate_loop g qubit amps sz i new
                     = single_gate_loop g qubit amps sz (i + 1) new'"
      using True body by (subst single_gate_loop.simps) simp
    ultimately show ?thesis
      by simp
  next
    case False
    then have "single_gate_loop g qubit amps sz i new = Some new"
      by (subst single_gate_loop.simps) simp
    moreover have "max i sz = i"
      using False by simp
    ultimately show ?thesis
      using "1.prems" by simp
  qed
qed

lemma single_after_0: "single_after g q amps sz 0 k = amps ! k"
  by (simp add: single_after_def)

lemma apply_single_gate_pointwise:
  assumes "q < 64"
  shows "\<exists>new. apply_single_gate g q st = Some (st\<lparr>amplitudes := new\<rparr>) \<and>
           length new = length (amplitudes st) \<and>
           (\<forall>k<length (amplitudes st).
              new ! k = single_after g q (amplitudes st) (length (amplitudes st))
                          (length (amplitudes st)) k)"
proof -
  let ?amps = "amplitudes st"
  let ?sz = "length ?amps"
  have "\<exists>r. single_gate_loop g q ?amps ?sz 0 ?amps = Some r \<and> length r = ?sz \<and>
       (\<forall>k<?sz. r ! k = single_after g q ?amps ?sz (max 0 ?sz) k)"
    by (rule single_gate_loop_inv [OF assms]) (simp_all add: single_after_0)
  then show ?thesis
    by (auto simp: apply_single_gate_def Let_def)
qed


lemma controlled_gate_body_eq:
  "control < 64 \<Longrightarrow> target < 64 \<Longrightarrow>
   controlled_gate_body g control target amps sz i new =
     Some (if bit i control \<and> \<not> bit i target \<and> i + 2 ^ target < sz
           then pair_update g amps i (i + 2 ^ target) new else new)"
  by (simp add: controlled_gate_body_def shr_def shl_one_def Let_def drop_bit_mod2_zero
      drop_bit_mod2_one or_pow)

lemma controlled_step:
  assumes len: "length new = sz"
    and i: "i < sz"
    and inv: "\<forall>k<sz. new ! k = controlled_after g c t amps sz i k"
    and k: "k < sz"
  shows "(if bit i c \<and> \<not> bit i t \<and> i + 2 ^ t < sz
          then pair_update g amps i (i + 2 ^ t) new else new) ! k
           = controlled_after g c t amps sz (i + 1) k"
proof (cases "bit i c \<and> \<not> bit i t \<and> i + 2 ^ t < sz")
  case True
  then have bc: "bit i c" and nb: "\<not> bit i t" and j: "i + 2 ^ t < sz" by simp_all
  have bj: "bit (i + 2 ^ t) t" using nb by (simp add: bit_add_pow)
  show ?thesis
  proof (cases "bit k t")
    case bk: True
    then have ge: "2 ^ t \<le> k" by (rule bit_ge_pow)
    then have "(k - 2 ^ t < i + 1) = (k - 2 ^ t < i \<or> k = i + 2 ^ t)" by auto
    moreover have "k \<noteq> i" using bk nb by auto
    ultimately show ?thesis
      using bk bc nb j len k inv ge
      by (auto simp: pair_update_eq controlled_after_def nth_list_update)
  next
    case False
    then have "k \<noteq> i + 2 ^ t" using bj by auto
    then show ?thesis
      using False bc nb j len k inv i
      by (auto simp: pair_update_eq controlled_after_def nth_list_update less_Suc_eq)
  qed
next
  case False
  show ?thesis
  proof (cases "bit k t")
    case bk: True
    then have ge: "2 ^ t \<le> k" by (rule bit_ge_pow)
    have "\<not> (bit (k - 2 ^ t) c \<and> k - 2 ^ t = i)"
    proof
      assume e: "bit (k - 2 ^ t) c \<and> k - 2 ^ t = i"
      then have "\<not> bit i t" using bk bit_sub_pow [of k t t] by auto
      moreover have "i + 2 ^ t = k" using e ge by auto
      moreover have "bit i c" using e by auto
      ultimately show False using False k by simp
    qed
    then show ?thesis
      using bk False inv k by (auto simp: controlled_after_def less_Suc_eq)
  next
    case nbk: False
    have "k = i \<Longrightarrow> \<not> (bit k c \<and> k + 2 ^ t < sz)" using False nbk by auto
    then show ?thesis
      using nbk False inv k by (auto simp: controlled_after_def less_Suc_eq)
  qed
qed

lemma controlled_gate_loop_inv:
  "c < 64 \<Longrightarrow> t < 64 \<Longrightarrow> length new = sz \<Longrightarrow>
   \<forall>k<sz. new ! k = controlled_after g c t amps sz i k \<Longrightarrow>
   \<exists>r. controlled_gate_loop g c t amps sz i new = Some r \<and> length r = sz \<and>
       (\<forall>k<sz. r ! k = controlled_after g c t amps sz (max i sz) k)"
proof (induction g c t amps sz i new rule: controlled_gate_loop.induct)
  case (1 g control target amps sz i new)
  show ?case
  proof (cases "i < sz")
    case True
    define new' where
      "new' = (if bit i control \<and> \<not> bit i target \<and> i + 2 ^ target < sz
               then pair_update g amps i (i + 2 ^ target) new else new)"
    have body: "controlled_gate_body g control target amps sz i new = Some new'"
      using "1.prems"(1,2) by (simp add: controlled_gate_body_eq new'_def)
    have len: "length new' = sz"
      using "1.prems"(3) by (simp add: new'_def length_pair_update)
    have inv: "\<forall>k<sz. new' ! k = controlled_after g control target amps sz (i + 1) k"
      unfolding new'_def using controlled_step [OF "1.prems"(3) True "1.prems"(4)] by blast
    have "\<exists>r. controlled_gate_loop g control target amps sz (i + 1) new' = Some r \<and>
       length r = sz \<and>
       (\<forall>k<sz. r ! k = controlled_after g control target amps sz (max (i + 1) sz) k)"
      using "1.IH" [OF True body "1.prems"(1,2) len inv] .
    moreover have "max (i + 1) sz = max i sz"
      using True by simp
    moreover have "controlled_gate_loop g control target amps sz i new
                     = controlled_gate_loop g control target amps sz (i + 1) new'"
      using True body by (subst controlled_gate_loop.simps) simp
    ultimately show ?thesis
      by simp
  next
    case False
    then have "controlled_gate_loop g control target amps sz i new = Some new"
      by (subst controlled_gate_loop.simps) simp
    moreover have "max i sz = i"
      using False by simp
    ultimately show ?thesis
      using "1.prems" by simp
  qed
qed

lemma controlled_after_0: "controlled_after g c t amps sz 0 k = amps ! k"
  by (simp add: controlled_after_def)

lemma apply_controlled_gate_pointwise:
  assumes "c < 64" "t < 64"
  shows "\<exists>new. apply_controlled_gate g c t st = Some (st\<lparr>amplitudes := new\<rparr>) \<and>
           length new = length (amplitudes st) \<and>
           (\<forall>k<length (amplitudes st).
              new ! k = controlled_after g c t (amplitudes st) (length (amplitudes st))
                          (length (amplitudes st)) k)"
proof -
  let ?amps = "amplitudes st"
  let ?sz = "length ?amps"
  have "\<exists>r. controlled_gate_loop g c t ?amps ?sz 0 ?amps = Some r \<and> length r = ?sz \<and>
       (\<forall>k<?sz. r ! k = controlled_after g c t ?amps ?sz (max 0 ?sz) k)"
    by (rule controlled_gate_loop_inv [OF assms]) (simp_all add: controlled_after_0)
  then show ?thesis
    by (auto simp: apply_controlled_gate_def Let_def)
qed

section \<open>The constructor\<close>

lemma fits_memory_lt_60: "fits_memory mem (2 ^ n) \<Longrightarrow> n < 60"
proof (rule ccontr)
  assume f: "fits_memory mem (2 ^ n)" and "\<not> n < 60"
  then have "64 \<le> n + 4"
    by simp
  then have "(2::nat) ^ 64 \<le> 2 ^ (n + 4)"
    by (rule power_increasing) simp
  also have "(2::nat) ^ (n + 4) = 16 * 2 ^ n"
    by (simp add: power_add)
  finally have "(2::nat) ^ 64 \<le> 16 * 2 ^ n" .
  then show False
    using f by (simp add: fits_memory_def)
qed

lemma new_QuantumState_eq:
  "new_QuantumState mem n =
     (if fits_memory mem (2 ^ n)
      then Some \<lparr> amplitudes = (replicate (2 ^ n) (Complex_t 0 0))[0 := Complex_t 1 0],
                  num_qubits = n \<rparr>
      else None)"
proof (cases "n < 64")
  case True
  then show ?thesis
    by (simp add: new_QuantumState_def shl_one_def)
next
  case False
  then have "\<not> fits_memory mem (2 ^ n)"
    using fits_memory_lt_60 [of mem n] by auto
  then show ?thesis
    using False by (simp add: new_QuantumState_def shl_one_def)
qed

text \<open>
  Claim C6: for every qubit count \<open>n\<close> in the domain of the constructor, which is
  that the vector of \<open>2 ^ n\<close> amplitudes fits the memory that can be allocated, the
  constructor yields the state with \<open>n\<close> qubits whose amplitude vector has length
  exactly \<open>2 ^ n\<close>, with the amplitude \<open>(1, 0)\<close> at index 0 and \<open>(0, 0)\<close> at every
  other index.
\<close>

theorem constructor_zero_state:
  assumes "fits_memory mem (2 ^ n)"
  shows "\<exists>st. new_QuantumState mem n = Some st \<and> num_qubits st = n \<and>
           length (amplitudes st) = 2 ^ n \<and>
           amplitudes st ! 0 = Complex_t 1 0 \<and>
           (\<forall>i. 0 < i \<and> i < 2 ^ n \<longrightarrow> amplitudes st ! i = Complex_t 0 0)"
  using assms by (simp add: new_QuantumState_eq)

theorem constructor_zero_state_witness:
  "fits_memory 1024 (2 ^ 2) \<and>
   (\<exists>st. (new_QuantumState 1024 2 :: real QuantumState option) = Some st \<and>
           num_qubits st = 2 \<and>
           length (amplitudes st) = 2 ^ 2 \<and>
           amplitudes st ! 0 = Complex_t 1 0 \<and>
           (\<forall>i. 0 < i \<and> i < 2 ^ 2 \<longrightarrow> amplitudes st ! i = Complex_t 0 0))"
proof -
  have f: "fits_memory 1024 (2 ^ 2)"
    by (simp add: fits_memory_def)
  show ?thesis
    using f constructor_zero_state [OF f] by simp
qed

text \<open>
  Outside that domain no state is constructed: for \<open>n \<ge> 64\<close> the shift is undefined,
  and for \<open>60 \<le> n < 64\<close> the vector would need \<open>2 ^ 64\<close> bytes or more.
\<close>

lemma new_QuantumState_too_large: "60 \<le> n \<Longrightarrow> new_QuantumState mem n = None"
  using fits_memory_lt_60 [of mem n] by (auto simp: new_QuantumState_eq)

section \<open>Probabilities\<close>

text \<open>
  Claim C5: on a state of \<open>n\<close> qubits, \<^verbatim>\<open>get_probability(index)\<close> returns
  \<open>real\<^sup>2 + imaginary\<^sup>2\<close> of the amplitude at \<open>index\<close> when \<open>index < 2 ^ n\<close>
  and exactly \<open>0\<close> when \<open>index \<ge> 2 ^ n\<close>. The function always returns a number
  (there is no error result), and it returns nothing but the number, so the state is
  not changed.
\<close>

theorem get_probability_spec:
  assumes "valid_state st"
  shows "(index < 2 ^ num_qubits st \<longrightarrow>
            get_probability st index =
              real_c (amplitudes st ! index) * real_c (amplitudes st ! index)
              + imag_c (amplitudes st ! index) * imag_c (amplitudes st ! index))
         \<and> (2 ^ num_qubits st \<le> index \<longrightarrow> get_probability st index = 0)"
  using assms by (simp add: valid_state_def get_probability_def std_norm_def)

theorem get_probability_spec_witness:
  "valid_state \<lparr> amplitudes = [Complex_t (1::real) 0, Complex_t 0 0], num_qubits = 1 \<rparr> \<and>
   get_probability \<lparr> amplitudes = [Complex_t (1::real) 0, Complex_t 0 0], num_qubits = 1 \<rparr> 0 = 1 \<and>
   get_probability \<lparr> amplitudes = [Complex_t (1::real) 0, Complex_t 0 0], num_qubits = 1 \<rparr> 2 = 0"
proof -
  let ?s = "\<lparr> amplitudes = [Complex_t (1::real) 0, Complex_t 0 0], num_qubits = 1 \<rparr>"
  have v: "valid_state ?s"
    by (simp add: valid_state_def)
  show ?thesis
    using v get_probability_spec [OF v, of 0] get_probability_spec [OF v, of 2] by simp
qed

section \<open>Single-qubit gates\<close>

text \<open>
  Claim C1: on a state of \<open>n\<close> qubits and for a qubit index \<open>q < n\<close>,
  \<^verbatim>\<open>apply_single_gate(g, q)\<close> returns normally and, for each basis index
  \<open>i < 2 ^ n\<close> whose bit \<open>q\<close> is 0, with \<open>j\<close> the index \<open>i\<close> with that bit set,
  the new amplitude at \<open>i\<close> is \<open>g00 * amp[i] + g01 * amp[j]\<close> and the new amplitude
  at \<open>j\<close> is \<open>g10 * amp[i] + g11 * amp[j]\<close>, where \<open>amp\<close> is the vector before the
  call.
\<close>

theorem apply_single_gate_pairs:
  assumes "valid_state st" and "q < num_qubits st"
  shows "\<exists>st'. apply_single_gate g q st = Some st' \<and>
           num_qubits st' = num_qubits st \<and>
           length (amplitudes st') = 2 ^ num_qubits st \<and>
           (\<forall>i<2 ^ num_qubits st. \<not> bit i q \<longrightarrow>
              (let j = set_bit q i
               in j < 2 ^ num_qubits st \<and>
                  amplitudes st' ! i =
                    c_add (c_mul (g00 g) (amplitudes st ! i)) (c_mul (g01 g) (amplitudes st ! j)) \<and>
                  amplitudes st' ! j =
                    c_add (c_mul (g10 g) (amplitudes st ! i)) (c_mul (g11 g) (amplitudes st ! j))))"
proof -
  let ?n = "num_qubits st"
  have sz: "length (amplitudes st) = 2 ^ ?n" and q64: "q < 64"
    using assms by (simp_all add: valid_state_def)
  obtain new where ap: "apply_single_gate g q st = Some (st\<lparr>amplitudes := new\<rparr>)"
    and len: "length new = 2 ^ ?n"
    and pt: "\<forall>k<2 ^ ?n. new ! k = single_after g q (amplitudes st) (2 ^ ?n) (2 ^ ?n) k"
    using apply_single_gate_pointwise [OF q64, of g st] sz by auto
  have "j < 2 ^ ?n \<and> new ! i = upd0 g (amplitudes st) i j \<and> new ! j = upd1 g (amplitudes st) i j"
    if i: "i < 2 ^ ?n" and nb: "\<not> bit i q" and j: "j = set_bit q i" for i j
  proof -
    have je: "j = i + 2 ^ q" using nb j by (simp add: set_bit_add_pow)
    have jlt: "j < 2 ^ ?n" unfolding je using nb i assms(2) by (rule add_pow_lt_pow)
    have bj: "bit j q" unfolding je using nb by (simp add: bit_add_pow)
    have "new ! i = upd0 g (amplitudes st) i j"
      using pt i nb jlt je by (simp add: single_after_def)
    moreover have "new ! j = upd1 g (amplitudes st) i j"
      using pt jlt bj i je by (simp add: single_after_def)
    ultimately show ?thesis using jlt by simp
  qed
  then show ?thesis
    using ap len by (simp add: Let_def upd0_def upd1_def)
qed

theorem apply_single_gate_pairs_witness:
  "valid_state \<lparr> amplitudes = [Complex_t (1::real) 0, Complex_t 0 0], num_qubits = 1 \<rparr> \<and>
   (0::nat) < num_qubits \<lparr> amplitudes = [Complex_t (1::real) 0, Complex_t 0 0], num_qubits = 1 \<rparr> \<and>
   (\<exists>st'. apply_single_gate pauli_x 0
             \<lparr> amplitudes = [Complex_t (1::real) 0, Complex_t 0 0], num_qubits = 1 \<rparr> = Some st' \<and>
          amplitudes st' ! 0 = Complex_t 0 0 \<and> amplitudes st' ! 1 = Complex_t 1 0)"
proof -
  let ?s = "\<lparr> amplitudes = [Complex_t (1::real) 0, Complex_t 0 0], num_qubits = 1 \<rparr>"
  have v: "valid_state ?s"
    by (simp add: valid_state_def)
  have q: "0 < num_qubits ?s"
    by simp
  from apply_single_gate_pairs [OF v q, of pauli_x]
  obtain st' where ap: "apply_single_gate pauli_x 0 ?s = Some st'"
    and pairs: "\<forall>i<2 ^ num_qubits ?s. \<not> bit i 0 \<longrightarrow>
              (let j = set_bit 0 i
               in j < 2 ^ num_qubits ?s \<and>
                  amplitudes st' ! i =
                    c_add (c_mul (g00 pauli_x) (amplitudes ?s ! i))
                          (c_mul (g01 pauli_x) (amplitudes ?s ! j)) \<and>
                  amplitudes st' ! j =
                    c_add (c_mul (g10 pauli_x) (amplitudes ?s ! i))
                          (c_mul (g11 pauli_x) (amplitudes ?s ! j)))"
    by blast
  from pairs [rule_format, of 0]
  have "amplitudes st' ! 0 = Complex_t 0 0 \<and> amplitudes st' ! 1 = Complex_t 1 0"
    by (simp add: Let_def pauli_x_def c_add_def c_mul_def set_bit_eq)
  then show ?thesis
    using v ap by simp
qed

section \<open>Pauli-X twice, in exact arithmetic\<close>

text \<open>
  Where the scalars form a ring (so that \<open>0 * a = 0\<close>, \<open>1 * a = a\<close> and
  \<open>a + 0 = a\<close> hold), Pauli-X exchanges the two amplitudes of every pair, and applying
  it twice to a qubit of the state gives the state back. IEEE doubles are not a ring
  (\<open>0 * a\<close> is \<open>-0.0\<close> for negative \<open>a\<close>, and \<open>-0.0 + 0.0\<close> is \<open>0.0\<close>), so
  this says nothing about the bit patterns of doubles.
\<close>

lemma upd0_pauli_x: "upd0 (pauli_x :: ('a::ring_1) Gate) amps i j = amps ! j"
  by (cases "amps ! j") (simp add: upd0_def pauli_x_def c_add_def c_mul_def)

lemma upd1_pauli_x: "upd1 (pauli_x :: ('a::ring_1) Gate) amps i j = amps ! i"
  by (cases "amps ! i") (simp add: upd1_def pauli_x_def c_add_def c_mul_def)

lemma pauli_x_twice_exact:
  fixes st :: "('a::ring_1) QuantumState"
  assumes "valid_state st" and "q < num_qubits st"
  shows "apply_single_gate pauli_x q st \<bind> apply_single_gate pauli_x q = Some st"
proof -
  let ?n = "num_qubits st"
  let ?amps = "amplitudes st"
  have sz: "length ?amps = 2 ^ ?n" and q64: "q < 64"
    using assms by (simp_all add: valid_state_def)
  obtain new where ap: "apply_single_gate pauli_x q st = Some (st\<lparr>amplitudes := new\<rparr>)"
    and len: "length new = 2 ^ ?n"
    and pt: "\<forall>k<2 ^ ?n. new ! k = single_after pauli_x q ?amps (2 ^ ?n) (2 ^ ?n) k"
    using apply_single_gate_pointwise [OF q64, of pauli_x st] sz by auto
  let ?st1 = "st\<lparr>amplitudes := new\<rparr>"
  obtain new2 where ap2: "apply_single_gate pauli_x q ?st1 = Some (?st1\<lparr>amplitudes := new2\<rparr>)"
    and len2: "length new2 = 2 ^ ?n"
    and pt2: "\<forall>k<2 ^ ?n. new2 ! k = single_after pauli_x q new (2 ^ ?n) (2 ^ ?n) k"
    using apply_single_gate_pointwise [OF q64, of pauli_x ?st1] len by auto
  have flip: "new ! k = ?amps ! (if bit k q then k - 2 ^ q else k + 2 ^ q)"
    if k: "k < 2 ^ ?n" for k
  proof (cases "bit k q")
    case True
    then have "k - 2 ^ q < 2 ^ ?n" using k by (simp add: less_imp_diff_less)
    then show ?thesis
      using pt k True by (simp add: single_after_def upd1_pauli_x)
  next
    case False
    then have "k + 2 ^ q < 2 ^ ?n" using k assms(2) by (rule add_pow_lt_pow)
    then show ?thesis
      using pt k False by (simp add: single_after_def upd0_pauli_x)
  qed
  have "new2 ! k = ?amps ! k" if k: "k < 2 ^ ?n" for k
  proof (cases "bit k q")
    case True
    let ?i = "k - 2 ^ q"
    have i: "?i < 2 ^ ?n" using k by (simp add: less_imp_diff_less)
    have nb: "\<not> bit ?i q" using True by (simp add: bit_sub_pow)
    have ij: "?i + 2 ^ q = k" using bit_ge_pow [OF True] by simp
    have "new2 ! k = new ! ?i"
      using pt2 k True i by (simp add: single_after_def upd1_pauli_x)
    also have "\<dots> = ?amps ! k"
      using flip [OF i] nb ij by simp
    finally show ?thesis .
  next
    case False
    let ?j = "k + 2 ^ q"
    have j: "?j < 2 ^ ?n" using False k assms(2) by (rule add_pow_lt_pow)
    have b: "bit ?j q" using False by (simp add: bit_add_pow)
    have "new2 ! k = new ! ?j"
      using pt2 k False j by (simp add: single_after_def upd0_pauli_x)
    also have "\<dots> = ?amps ! k"
      using flip [OF j] b by simp
    finally show ?thesis .
  qed
  then have "new2 = ?amps"
    using len2 sz by (simp add: nth_equalityI)
  then show ?thesis
    using ap ap2 by simp
qed

section \<open>Controlled gates\<close>

lemma apply_controlled_gate_same_qubit:
  assumes "q < 64"
  shows "apply_controlled_gate g q q st = Some st"
proof -
  let ?amps = "amplitudes st"
  obtain new where ap: "apply_controlled_gate g q q st = Some (st\<lparr>amplitudes := new\<rparr>)"
    and len: "length new = length ?amps"
    and pt: "\<forall>k<length ?amps. new ! k = controlled_after g q q ?amps (length ?amps) (length ?amps) k"
    using apply_controlled_gate_pointwise [OF assms assms, of g st] by auto
  have "new ! k = ?amps ! k" if "k < length ?amps" for k
    using pt that by (simp add: controlled_after_def bit_sub_pow)
  then have "new = ?amps"
    using len by (simp add: nth_equalityI)
  then show ?thesis
    using ap by simp
qed

text \<open>
  Claim C4: on a state of \<open>n\<close> qubits, for \<open>control < n\<close>, \<open>target < n\<close> and
  \<open>control \<noteq> target\<close>, \<^verbatim>\<open>apply_controlled_gate(g, control, target)\<close> returns
  normally, leaves the amplitude at every basis index whose control bit is 0 unchanged,
  and applies the pairing update of \<^verbatim>\<open>apply_single_gate\<close> on the target bit to the
  pairs \<open>(i, j)\<close> whose control bit is 1. Every index with control bit 1 is the \<open>i\<close>
  or the \<open>j\<close> of exactly one such pair.
\<close>

theorem apply_controlled_gate_frame:
  assumes "valid_state st" and "control < num_qubits st" and "target < num_qubits st"
    and "control \<noteq> target"
  shows "\<exists>st'. apply_controlled_gate g control target st = Some st' \<and>
           num_qubits st' = num_qubits st \<and>
           length (amplitudes st') = 2 ^ num_qubits st \<and>
           (\<forall>i<2 ^ num_qubits st. \<not> bit i control \<longrightarrow>
              amplitudes st' ! i = amplitudes st ! i) \<and>
           (\<forall>i<2 ^ num_qubits st. bit i control \<and> \<not> bit i target \<longrightarrow>
              (let j = set_bit target i
               in j < 2 ^ num_qubits st \<and> bit j control \<and>
                  amplitudes st' ! i =
                    c_add (c_mul (g00 g) (amplitudes st ! i)) (c_mul (g01 g) (amplitudes st ! j)) \<and>
                  amplitudes st' ! j =
                    c_add (c_mul (g10 g) (amplitudes st ! i)) (c_mul (g11 g) (amplitudes st ! j))))"
proof -
  let ?n = "num_qubits st"
  let ?amps = "amplitudes st"
  have sz: "length ?amps = 2 ^ ?n" and c64: "control < 64" and t64: "target < 64"
    using assms by (simp_all add: valid_state_def)
  obtain new where ap: "apply_controlled_gate g control target st = Some (st\<lparr>amplitudes := new\<rparr>)"
    and len: "length new = 2 ^ ?n"
    and pt: "\<forall>k<2 ^ ?n. new ! k = controlled_after g control target ?amps (2 ^ ?n) (2 ^ ?n) k"
    using apply_controlled_gate_pointwise [OF c64 t64, of g st] sz by auto
  have frame: "new ! i = ?amps ! i" if i: "i < 2 ^ ?n" and nb: "\<not> bit i control" for i
  proof (cases "bit i target")
    case True
    then have "\<not> bit (i - 2 ^ target) control"
      using nb by (simp add: bit_sub_pow)
    then show ?thesis
      using pt i True by (simp add: controlled_after_def)
  next
    case False
    then show ?thesis
      using pt i nb by (simp add: controlled_after_def)
  qed
  have pair: "\<forall>i<2 ^ ?n. bit i control \<and> \<not> bit i target \<longrightarrow>
              (let j = set_bit target i
               in j < 2 ^ ?n \<and> bit j control \<and>
                  new ! i = c_add (c_mul (g00 g) (?amps ! i)) (c_mul (g01 g) (?amps ! j)) \<and>
                  new ! j = c_add (c_mul (g10 g) (?amps ! i)) (c_mul (g11 g) (?amps ! j)))"
  proof (intro allI impI)
    fix i :: nat
    assume i: "i < 2 ^ ?n" and b: "bit i control \<and> \<not> bit i target"
    then have bc: "bit i control" and nb: "\<not> bit i target" by simp_all
    define j where "j = i + 2 ^ target"
    have js: "set_bit target i = j" using nb by (simp add: set_bit_add_pow j_def)
    have jlt: "j < 2 ^ ?n" unfolding j_def using nb i assms(3) by (rule add_pow_lt_pow)
    have bj: "bit j target" unfolding j_def using nb by (simp add: bit_add_pow)
    have bjc: "bit j control" unfolding j_def using nb bc assms(4) by (simp add: bit_add_pow)
    have ji: "j - 2 ^ target = i" by (simp add: j_def)
    have "new ! i = upd0 g ?amps i j"
      using pt i nb bc jlt by (simp add: controlled_after_def j_def)
    moreover have "new ! j = upd1 g ?amps i j"
      using pt jlt bj bc i ji by (simp add: controlled_after_def)
    ultimately show "let j = set_bit target i
               in j < 2 ^ ?n \<and> bit j control \<and>
                  new ! i = c_add (c_mul (g00 g) (?amps ! i)) (c_mul (g01 g) (?amps ! j)) \<and>
                  new ! j = c_add (c_mul (g10 g) (?amps ! i)) (c_mul (g11 g) (?amps ! j))"
      unfolding js Let_def using jlt bjc by (simp add: upd0_def upd1_def)
  qed
  have frame': "\<forall>i<2 ^ ?n. \<not> bit i control \<longrightarrow> new ! i = ?amps ! i"
    using frame by blast
  show ?thesis
  proof (intro exI conjI)
    show "apply_controlled_gate g control target st = Some (st\<lparr>amplitudes := new\<rparr>)"
      by (rule ap)
    show "num_qubits (st\<lparr>amplitudes := new\<rparr>) = ?n"
      by simp
    show "length (amplitudes (st\<lparr>amplitudes := new\<rparr>)) = 2 ^ ?n"
      using len by simp
    show "\<forall>i<2 ^ ?n. \<not> bit i control \<longrightarrow> amplitudes (st\<lparr>amplitudes := new\<rparr>) ! i = ?amps ! i"
      using frame' by simp
    show "\<forall>i<2 ^ ?n. bit i control \<and> \<not> bit i target \<longrightarrow>
              (let j = set_bit target i
               in j < 2 ^ ?n \<and> bit j control \<and>
                  amplitudes (st\<lparr>amplitudes := new\<rparr>) ! i =
                    c_add (c_mul (g00 g) (?amps ! i)) (c_mul (g01 g) (?amps ! j)) \<and>
                  amplitudes (st\<lparr>amplitudes := new\<rparr>) ! j =
                    c_add (c_mul (g10 g) (?amps ! i)) (c_mul (g11 g) (?amps ! j)))"
      using pair by simp
  qed
qed

theorem apply_controlled_gate_frame_witness:
  "valid_state \<lparr> amplitudes = [Complex_t (0::real) 0, Complex_t 1 0, Complex_t 0 0, Complex_t 0 0],
        num_qubits = 2 \<rparr> \<and>
   (0::nat) < 2 \<and> (1::nat) < 2 \<and> (0::nat) \<noteq> 1 \<and>
   (\<exists>st'. apply_controlled_gate pauli_x 0 1
             \<lparr> amplitudes = [Complex_t (0::real) 0, Complex_t 1 0, Complex_t 0 0, Complex_t 0 0],
        num_qubits = 2 \<rparr> = Some st' \<and>
          amplitudes st' ! 0 = Complex_t 0 0 \<and>
          amplitudes st' ! 1 = Complex_t 0 0 \<and>
          amplitudes st' ! 3 = Complex_t 1 0)"
proof -
  let ?s = "\<lparr> amplitudes = [Complex_t (0::real) 0, Complex_t 1 0, Complex_t 0 0, Complex_t 0 0],
        num_qubits = 2 \<rparr>"
  have v: "valid_state ?s"
    by (simp add: valid_state_def)
  have c: "0 < num_qubits ?s" and t: "1 < num_qubits ?s" and ne: "(0::nat) \<noteq> 1"
    by simp_all
  from apply_controlled_gate_frame [OF v c t ne, of pauli_x]
  obtain st' where ap: "apply_controlled_gate pauli_x 0 1 ?s = Some st'"
    and frame: "\<forall>i<2 ^ num_qubits ?s. \<not> bit i 0 \<longrightarrow>
              amplitudes st' ! i = amplitudes ?s ! i"
    and pairs: "\<forall>i<2 ^ num_qubits ?s. bit i 0 \<and> \<not> bit i 1 \<longrightarrow>
              (let j = set_bit 1 i
               in j < 2 ^ num_qubits ?s \<and> bit j 0 \<and>
                  amplitudes st' ! i =
                    c_add (c_mul (g00 pauli_x) (amplitudes ?s ! i))
                          (c_mul (g01 pauli_x) (amplitudes ?s ! j)) \<and>
                  amplitudes st' ! j =
                    c_add (c_mul (g10 pauli_x) (amplitudes ?s ! i))
                          (c_mul (g11 pauli_x) (amplitudes ?s ! j)))"
    by blast
  have "amplitudes st' ! 0 = Complex_t 0 0"
    using frame [rule_format, of 0] by simp
  moreover have "set_bit 1 (1::nat) = 3"
    by (simp add: set_bit_eq bit_iff_odd)
  then have "amplitudes st' ! 1 = Complex_t 0 0 \<and> amplitudes st' ! 3 = Complex_t 1 0"
    using pairs [rule_format, of 1]
    by (simp add: Let_def pauli_x_def c_add_def c_mul_def bit_iff_odd)
  ultimately show ?thesis
    using v ap by simp
qed

section \<open>Circuit execution\<close>

lemma execute_loop_append:
  "execute_loop (ops @ [op]) state = execute_loop ops state \<bind> execute_step op"
  by (induction ops arbitrary: state) (simp_all split: option.splits)

lemma execute_push_back:
  "execute mem (push_back op c) = execute mem c \<bind> execute_step op"
  by (cases "new_QuantumState mem (c_num_qubits c) :: 'a QuantumState option")
     (simp_all add: execute_def push_back_def execute_loop_append)


lemma execute_loop_foldl:
  "foldl (\<lambda>s op. s \<bind> execute_step op) s ops =
     (case s of None \<Rightarrow> None | Some state \<Rightarrow> execute_loop ops state)"
proof (induction ops arbitrary: s)
  case Nil
  show ?case by (simp split: option.splits)
next
  case (Cons op ops)
  show ?case
    by (cases s) (simp_all add: Cons.IH split: option.splits)
qed

lemma execute_step_cases:
  "execute_step op =
     (\<lambda>state. case op_type op of
                 SINGLE_GATE \<Rightarrow> apply_single_gate (op_gate op) (op_qubit op) state
               | CONTROLLED_GATE \<Rightarrow>
                   apply_controlled_gate (op_gate op) (op_control op) (op_target op) state)"
  by (auto simp: execute_step_def fun_eq_iff split: OpType.splits)

text \<open>
  Claim C2: \<^verbatim>\<open>execute()\<close> starts from the fresh state of the constructor for the
  circuit's qubit count and applies the stored operations from the first appended to the
  last (a left fold over \<^verbatim>\<open>operations_\<close>), a \<^verbatim>\<open>SINGLE_GATE\<close> operation through
  \<^verbatim>\<open>apply_single_gate\<close> and a \<^verbatim>\<open>CONTROLLED_GATE\<close> operation through
  \<^verbatim>\<open>apply_controlled_gate\<close>, and returns the resulting state; appending one more
  operation to a circuit extends its execution by that operation, applied last. The
  method is \<^verbatim>\<open>const\<close> and only reads the circuit, so the circuit value is the same
  before and after.
\<close>

theorem execute_in_order:
  "execute mem c =
     foldl (\<lambda>s op. s \<bind>
              (\<lambda>state. case op_type op of
                          SINGLE_GATE \<Rightarrow> apply_single_gate (op_gate op) (op_qubit op) state
                        | CONTROLLED_GATE \<Rightarrow>
                            apply_controlled_gate (op_gate op) (op_control op) (op_target op) state))
           (new_QuantumState mem (c_num_qubits c)) (operations c)
   \<and> execute mem (push_back op' c) =
       execute mem c \<bind>
         (\<lambda>state. case op_type op' of
                     SINGLE_GATE \<Rightarrow> apply_single_gate (op_gate op') (op_qubit op') state
                   | CONTROLLED_GATE \<Rightarrow>
                       apply_controlled_gate (op_gate op') (op_control op') (op_target op') state)"
proof -
  have "execute mem c = foldl (\<lambda>s op. s \<bind> execute_step op)
           (new_QuantumState mem (c_num_qubits c)) (operations c)"
    by (simp add: execute_loop_foldl execute_def split: option.splits)
  moreover have "execute mem (push_back op' c) = execute mem c \<bind> execute_step op'"
    by (rule execute_push_back)
  ultimately show ?thesis
    by (simp only: execute_step_cases)
qed

theorem execute_in_order_witness:
  "execute 1024 (circuit_cnot 0 1 (circuit_x 0 (new_QuantumCircuit 2))) =
     Some \<lparr> amplitudes = [Complex_t (0::real) 0, Complex_t 0 0, Complex_t 0 0, Complex_t 1 0],
            num_qubits = 2 \<rparr>"
proof -
  let ?c = "circuit_cnot 0 1 (circuit_x 0 (new_QuantumCircuit 2)) :: real QuantumCircuit"
  let ?init = "\<lparr> amplitudes = (replicate (2 ^ c_num_qubits ?c) (Complex_t (0::real) 0))
                                [0 := Complex_t 1 0],
                 num_qubits = c_num_qubits ?c \<rparr>"
  have n: "c_num_qubits ?c = 2"
    by (simp add: circuit_cnot_def circuit_x_def push_back_def new_QuantumCircuit_def)
  have "fits_memory 1024 (2 ^ c_num_qubits ?c)"
    unfolding n by (simp add: fits_memory_def)
  then have init: "new_QuantumState 1024 (c_num_qubits ?c) = Some ?init"
    by (simp add: new_QuantumState_eq)
  have "execute 1024 ?c =
     foldl (\<lambda>s op. s \<bind>
              (\<lambda>state. case op_type op of
                          SINGLE_GATE \<Rightarrow> apply_single_gate (op_gate op) (op_qubit op) state
                        | CONTROLLED_GATE \<Rightarrow>
                            apply_controlled_gate (op_gate op) (op_control op) (op_target op) state))
           (new_QuantumState 1024 (c_num_qubits ?c)) (operations ?c)"
    using execute_in_order [of 1024 ?c] by (rule conjunct1)
  also have "\<dots> =
     foldl (\<lambda>s op. s \<bind>
              (\<lambda>state. case op_type op of
                          SINGLE_GATE \<Rightarrow> apply_single_gate (op_gate op) (op_qubit op) state
                        | CONTROLLED_GATE \<Rightarrow>
                            apply_controlled_gate (op_gate op) (op_control op) (op_target op) state))
           (Some ?init) (operations ?c)"
    by (simp only: init)
  also have "\<dots> = Some \<lparr> amplitudes = [Complex_t (0::real) 0, Complex_t 0 0, Complex_t 0 0,
                                    Complex_t 1 0], num_qubits = 2 \<rparr>"
    by code_simp
  finally show ?thesis .
qed



section \<open>Qubit indices at or beyond the qubit count\<close>

lemma apply_single_gate_beyond:
  assumes "valid_state st" and "num_qubits st \<le> q" and "q < 64"
  shows "apply_single_gate g q st = Some st"
proof -
  let ?amps = "amplitudes st"
  let ?n = "num_qubits st"
  have sz: "length ?amps = 2 ^ ?n"
    using assms(1) by (simp add: valid_state_def)
  have le: "(2::nat) ^ ?n \<le> 2 ^ q"
    using assms(2) by simp
  obtain new where ap: "apply_single_gate g q st = Some (st\<lparr>amplitudes := new\<rparr>)"
    and len: "length new = 2 ^ ?n"
    and pt: "\<forall>k<2 ^ ?n. new ! k = single_after g q ?amps (2 ^ ?n) (2 ^ ?n) k"
    using apply_single_gate_pointwise [OF assms(3), of g st] sz by auto
  have "new ! k = ?amps ! k" if k: "k < 2 ^ ?n" for k
  proof -
    have "k < 2 ^ q" using k le by (rule less_le_trans)
    then have "\<not> bit k q" by (rule lt_pow_not_bit)
    moreover have "\<not> k + 2 ^ q < 2 ^ ?n" using le by (simp add: not_less trans_le_add2)
    ultimately show ?thesis
      using pt k by (simp add: single_after_def)
  qed
  then have "new = ?amps"
    using len sz by (simp add: nth_equalityI)
  then show ?thesis
    using ap by simp
qed

lemma apply_controlled_gate_beyond:
  assumes "valid_state st" and "num_qubits st \<le> c \<or> num_qubits st \<le> t"
    and "c < 64" and "t < 64"
  shows "apply_controlled_gate g c t st = Some st"
proof -
  let ?amps = "amplitudes st"
  let ?n = "num_qubits st"
  have sz: "length ?amps = 2 ^ ?n"
    using assms(1) by (simp add: valid_state_def)
  obtain new where ap: "apply_controlled_gate g c t st = Some (st\<lparr>amplitudes := new\<rparr>)"
    and len: "length new = 2 ^ ?n"
    and pt: "\<forall>k<2 ^ ?n. new ! k = controlled_after g c t ?amps (2 ^ ?n) (2 ^ ?n) k"
    using apply_controlled_gate_pointwise [OF assms(3,4), of g st] sz by auto
  have "new ! k = ?amps ! k" if k: "k < 2 ^ ?n" for k
  proof (cases "bit k t")
    case True
    then have "t < ?n" using k bit_lt_pow [of k ?n t] by simp
    then have "?n \<le> c" using assms(2) by simp
    then have "(2::nat) ^ ?n \<le> 2 ^ c" by simp
    moreover have "k - 2 ^ t < 2 ^ ?n" using k by (rule less_imp_diff_less)
    ultimately have "k - 2 ^ t < 2 ^ c" by (meson less_le_trans)
    then have "\<not> bit (k - 2 ^ t) c" by (rule lt_pow_not_bit)
    then show ?thesis
      using pt k True by (simp add: controlled_after_def)
  next
    case False
    have "\<not> (bit k c \<and> k + 2 ^ t < 2 ^ ?n)"
    proof
      assume a: "bit k c \<and> k + 2 ^ t < 2 ^ ?n"
      then have "c < ?n" using k bit_lt_pow [of k ?n c] by simp
      then have "?n \<le> t" using assms(2) by simp
      then have "(2::nat) ^ ?n \<le> 2 ^ t" by simp
      then have "\<not> k + 2 ^ t < 2 ^ ?n" by (simp add: not_less trans_le_add2)
      then show False using a by simp
    qed
    then show ?thesis
      using pt k False by (auto simp: controlled_after_def)
  qed
  then have "new = ?amps"
    using len sz by (simp add: nth_equalityI)
  then show ?thesis
    using ap by simp
qed

lemma apply_single_gate_undefined:
  assumes "amplitudes st \<noteq> []" and "64 \<le> q"
  shows "apply_single_gate g q st = None"
proof -
  have "single_gate_body g q amps sz 0 new = None" for amps sz new
    using assms(2) by (simp add: single_gate_body_def shr_def)
  then have "single_gate_loop g q (amplitudes st) (length (amplitudes st)) 0 (amplitudes st) = None"
    using assms(1) by (subst single_gate_loop.simps) simp
  then show ?thesis
    by (simp add: apply_single_gate_def)
qed

lemma apply_controlled_gate_undefined_control:
  assumes "amplitudes st \<noteq> []" and "64 \<le> c"
  shows "apply_controlled_gate g c t st = None"
proof -
  have "controlled_gate_body g c t amps sz 0 new = None" for amps sz new
    using assms(2) by (simp add: controlled_gate_body_def shr_def)
  then have "controlled_gate_loop g c t (amplitudes st) (length (amplitudes st)) 0 (amplitudes st) = None"
    using assms(1) by (subst controlled_gate_loop.simps) simp
  then show ?thesis
    by (simp add: apply_controlled_gate_def)
qed

lemma controlled_gate_loop_undefined_target:
  "c < 64 \<Longrightarrow> 64 \<le> t \<Longrightarrow> i \<le> 2 ^ c \<Longrightarrow> 2 ^ c < sz \<Longrightarrow>
   controlled_gate_loop g c t amps sz i new = None"
proof (induction g c t amps sz i new rule: controlled_gate_loop.induct)
  case (1 g control target amps sz i new)
  have lt: "i < sz" using "1.prems" by simp
  show ?case
  proof (cases "i = 2 ^ control")
    case True
    then have "bit i control" by (simp add: bit_exp_iff)
    then have "controlled_gate_body g control target amps sz i new = None"
      using "1.prems"(1,2)
      by (simp add: controlled_gate_body_def shr_def drop_bit_mod2_one)
    then show ?thesis
      using lt by (subst controlled_gate_loop.simps) simp
  next
    case False
    then have i: "i < 2 ^ control" using "1.prems"(3) by simp
    then have "\<not> bit i control" by (rule lt_pow_not_bit)
    then have body: "controlled_gate_body g control target amps sz i new = Some new"
      using "1.prems"(1)
      by (simp add: controlled_gate_body_def shr_def drop_bit_mod2_one)
    have "controlled_gate_loop g control target amps sz (i + 1) new = None"
      using "1.IH" [OF lt body "1.prems"(1,2) _ "1.prems"(4)] i by simp
    then show ?thesis
      using lt body by (subst controlled_gate_loop.simps) simp
  qed
qed

lemma controlled_gate_loop_control_beyond:
  "c < 64 \<Longrightarrow> sz \<le> 2 ^ c \<Longrightarrow> controlled_gate_loop g c t amps sz i new = Some new"
proof (induction g c t amps sz i new rule: controlled_gate_loop.induct)
  case (1 g control target amps sz i new)
  show ?case
  proof (cases "i < sz")
    case True
    then have "i < 2 ^ control" using "1.prems"(2) by simp
    then have "\<not> bit i control" by (rule lt_pow_not_bit)
    then have body: "controlled_gate_body g control target amps sz i new = Some new"
      using "1.prems"(1)
      by (simp add: controlled_gate_body_def shr_def drop_bit_mod2_one)
    have "controlled_gate_loop g control target amps sz (i + 1) new = Some new"
      using "1.IH" [OF True body "1.prems"] .
    then show ?thesis
      using True body by (subst controlled_gate_loop.simps) simp
  next
    case False
    then show ?thesis
      by (subst controlled_gate_loop.simps) simp
  qed
qed

text \<open>
  Claim C9 reads: an index at or beyond the qubit count is not checked and produces an
  undefined or incorrect amplitude pairing, which may corrupt the amplitude vector. On
  the one-qubit state \<open>[(1,0), (0,0)]\<close>, Pauli-X on qubit 1 pairs nothing: the guard
  \<^verbatim>\<open>j < size\<close> fails for every index and the state comes back unchanged.
\<close>

theorem out_of_range_counterexample:
  "apply_single_gate pauli_x 1 \<lparr> amplitudes = [Complex_t (1::real) 0, Complex_t 0 0], num_qubits = 1 \<rparr> =
     Some \<lparr> amplitudes = [Complex_t (1::real) 0, Complex_t 0 0], num_qubits = 1 \<rparr>"
  by code_simp

text \<open>
  Claim C9, amended: an index at or beyond the qubit count is not compared with the
  qubit count and no error is reported. On a state of \<open>n\<close> qubits,
  \<^verbatim>\<open>apply_single_gate\<close> with \<open>n \<le> qubit < 64\<close> returns the state unchanged, and its
  shifts are undefined for \<open>qubit \<ge> 64\<close>. \<^verbatim>\<open>apply_controlled_gate\<close> with
  \<open>control \<ge> n\<close> or \<open>target \<ge> n\<close> returns the state unchanged, unless a shift by
  64 or more is executed, which is undefined: the shift by \<open>control \<ge> 64\<close>, or the
  shift by \<open>target \<ge> 64\<close> when \<open>control < n\<close>.
\<close>

theorem out_of_range_qubit_index:
  assumes "valid_state st"
  shows "(num_qubits st \<le> q \<longrightarrow>
            apply_single_gate g q st = (if q < 64 then Some st else None)) \<and>
         (num_qubits st \<le> c \<or> num_qubits st \<le> t \<longrightarrow>
            apply_controlled_gate g c t st =
              (if 64 \<le> c \<or> (c < num_qubits st \<and> 64 \<le> t) then None else Some st))"
proof -
  let ?n = "num_qubits st"
  have sz: "length (amplitudes st) = 2 ^ ?n" and n64: "?n < 64"
    using assms by (simp_all add: valid_state_def)
  then have ne: "amplitudes st \<noteq> []"
    by auto
  have single: "apply_single_gate g q st = (if q < 64 then Some st else None)" if "?n \<le> q"
    using that assms ne by (simp add: apply_single_gate_beyond apply_single_gate_undefined)
  have ctrl: "apply_controlled_gate g c t st =
              (if 64 \<le> c \<or> (c < ?n \<and> 64 \<le> t) then None else Some st)"
    if oor: "?n \<le> c \<or> ?n \<le> t"
  proof -
    consider "64 \<le> c" | "c < ?n" "64 \<le> t" | "c < 64" "?n \<le> c" | "c < ?n" "t < 64"
      by linarith
    then show ?thesis
    proof cases
      case 1
      then show ?thesis
        using ne by (simp add: apply_controlled_gate_undefined_control)
    next
      case 2
      then have c64: "c < 64" and lt: "2 ^ c < length (amplitudes st)"
        using n64 sz by simp_all
      have "controlled_gate_loop g c t (amplitudes st) (length (amplitudes st)) 0
                   (amplitudes st) = None"
        using c64 2(2) _ lt by (rule controlled_gate_loop_undefined_target) simp
      then show ?thesis
        using 2 by (simp add: apply_controlled_gate_def)
    next
      case 3
      then have le: "length (amplitudes st) \<le> 2 ^ c" using sz by simp
      have "controlled_gate_loop g c t (amplitudes st) (length (amplitudes st)) 0
                   (amplitudes st) = Some (amplitudes st)"
        using 3(1) le by (rule controlled_gate_loop_control_beyond)
      then show ?thesis
        using 3 by (simp add: apply_controlled_gate_def)
    next
      case 4
      then have "c < 64" using n64 by simp
      then show ?thesis
        using 4 oor assms n64 by (simp add: apply_controlled_gate_beyond)
    qed
  qed
  show ?thesis
    using single ctrl by blast
qed

theorem out_of_range_qubit_index_witness:
  "valid_state \<lparr> amplitudes = [Complex_t (1::real) 0, Complex_t 0 0], num_qubits = 1 \<rparr> \<and>
   num_qubits \<lparr> amplitudes = [Complex_t (1::real) 0, Complex_t 0 0], num_qubits = 1 \<rparr> \<le> 5 \<and>
   apply_single_gate pauli_x 5 \<lparr> amplitudes = [Complex_t (1::real) 0, Complex_t 0 0], num_qubits = 1 \<rparr> =
     Some \<lparr> amplitudes = [Complex_t (1::real) 0, Complex_t 0 0], num_qubits = 1 \<rparr> \<and>
   apply_controlled_gate pauli_x 0 7 \<lparr> amplitudes = [Complex_t (1::real) 0, Complex_t 0 0], num_qubits = 1 \<rparr> =
     Some \<lparr> amplitudes = [Complex_t (1::real) 0, Complex_t 0 0], num_qubits = 1 \<rparr>"
proof -
  let ?s = "\<lparr> amplitudes = [Complex_t (1::real) 0, Complex_t 0 0], num_qubits = 1 \<rparr>"
  have v: "valid_state ?s"
    by (simp add: valid_state_def)
  show ?thesis
    using v out_of_range_qubit_index [OF v, of 5 pauli_x 0 7] by simp
qed

section \<open>Control equal to target\<close>

text \<open>
  Claim C10 reads: for every index \<open>q\<close>, \<^verbatim>\<open>apply_controlled_gate(g, q, q)\<close> leaves
  every amplitude unchanged. For \<open>q = 64\<close> the first shift \<^verbatim>\<open>i >> control\<close> of the
  loop has no defined value, so the call has no defined result.
\<close>

theorem controlled_same_qubit_counterexample:
  "apply_controlled_gate pauli_x 64 64 \<lparr> amplitudes = [Complex_t (1::real) 0, Complex_t 0 0], num_qubits = 1 \<rparr> = None"
  by code_simp

text \<open>
  Claim C10, amended: for every state, every gate \<open>g\<close> and every index \<open>q < 64\<close>,
  \<^verbatim>\<open>apply_controlled_gate(g, q, q)\<close> returns the state unchanged, since no index has
  bit \<open>q\<close> both 1 and 0; consequently \<^verbatim>\<open>cnot(q, q)\<close> appended to a circuit does not
  change the result of \<^verbatim>\<open>execute()\<close>.
\<close>

theorem controlled_same_qubit_noop:
  assumes "q < 64"
  shows "apply_controlled_gate g q q st = Some st \<and>
         execute mem (circuit_cnot q q c) = execute mem c"
proof -
  have "execute_step \<lparr> op_type = CONTROLLED_GATE, op_gate = pauli_x, op_qubit = 0,
                 op_control = q, op_target = q \<rparr> s = Some s" for s
    using assms by (simp add: execute_step_def apply_controlled_gate_same_qubit)
  then have "execute mem (circuit_cnot q q c) = execute mem c"
    by (cases "execute mem c") (simp_all add: circuit_cnot_def execute_push_back)
  then show ?thesis
    using assms by (simp add: apply_controlled_gate_same_qubit)
qed

theorem controlled_same_qubit_noop_witness:
  "(0::nat) < 64 \<and>
   apply_controlled_gate pauli_x 0 0 \<lparr> amplitudes = [Complex_t (1::real) 0, Complex_t 0 0], num_qubits = 1 \<rparr> =
     Some \<lparr> amplitudes = [Complex_t (1::real) 0, Complex_t 0 0], num_qubits = 1 \<rparr> \<and>
   execute 1024 (circuit_cnot 0 0 (new_QuantumCircuit 1)) =
     execute 1024 (new_QuantumCircuit 1 :: real QuantumCircuit)"
proof -
  have q: "(0::nat) < 64"
    by simp
  show ?thesis
    using q controlled_same_qubit_noop [OF q, of pauli_x "\<lparr> amplitudes = [Complex_t (1::real) 0, Complex_t 0 0], num_qubits = 1 \<rparr>" 1024 "new_QuantumCircuit 1"]
    by simp
qed

end
